theory Spec2Isabelle
  imports Main
begin

section \<open>JavaScript values and errors\<close>

text \<open>
  The primitive values the program handles: slugs read from literals of the expression
  tree, and the values of scalar fields. A number is represented by its canonical string
  rendering (what \<^verbatim>\<open>String(n)\<close> gives): the rendering identifies exactly the numbers
  that the \<^verbatim>\<open>Set\<close> comparison (SameValueZero) identifies, so equality of
  \<open>jsval\<close> is the equality \<^verbatim>\<open>Set\<close> uses.
\<close>

datatype jsval =
    JUndefined
  | JNull
  | JString string
  | JNumber string
  | JBoolean bool

text \<open>
  Every exception of the program is a value: a \<^verbatim>\<open>TypeError\<close> for a property read on
  \<^verbatim>\<open>undefined\<close> or a call of something that is no function, the parser's syntax error,
  and the error that \<^verbatim>\<open>assert\<close> of \<^verbatim>\<open>@ember/debug\<close> throws with its message.
\<close>

datatype error =
    TypeError
  | ParseError
  | AssertionFailed string

text \<open>Conversion to a string, as a template literal does it.\<close>

fun toString :: "jsval \<Rightarrow> string" where
  "toString JUndefined = ''undefined''"
| "toString JNull = ''null''"
| "toString (JString s) = s"
| "toString (JNumber s) = s"
| "toString (JBoolean b) = (if b then ''true'' else ''false'')"

text \<open>Truthiness of a primitive value.\<close>

fun truthy :: "jsval \<Rightarrow> bool" where
  "truthy JUndefined = False"
| "truthy JNull = False"
| "truthy (JString s) = (s \<noteq> [])"
| "truthy (JNumber s) = (s \<noteq> ''0'' \<and> s \<noteq> ''NaN'')"
| "truthy (JBoolean b) = b"

text \<open>\<^verbatim>\<open>xs[i]\<close>: reading an array out of range gives \<^verbatim>\<open>undefined\<close> (here \<open>None\<close>).\<close>

definition at :: "'a list \<Rightarrow> nat \<Rightarrow> 'a option" where
  "at xs i = (if i < length xs then Some (xs ! i) else None)"

text \<open>
  \<^verbatim>\<open>xs.map(f)\<close> and \<^verbatim>\<open>xs.filter(p)\<close> with a callback that may throw: the elements are
  visited from left to right and the first exception ends the loop.
\<close>

fun mapE :: "('a \<Rightarrow> error + 'b) \<Rightarrow> 'a list \<Rightarrow> error + 'b list" where
  "mapE f [] = Inr []"
| "mapE f (x # xs) =
     (case f x of
        Inl e \<Rightarrow> Inl e
      | Inr y \<Rightarrow> (case mapE f xs of Inl e \<Rightarrow> Inl e | Inr ys \<Rightarrow> Inr (y # ys)))"

fun filterE :: "('a \<Rightarrow> error + bool) \<Rightarrow> 'a list \<Rightarrow> error + 'a list" where
  "filterE p [] = Inr []"
| "filterE p (x # xs) =
     (case p x of
        Inl e \<Rightarrow> Inl e
      | Inr b \<Rightarrow> (case filterE p xs of
                   Inl e \<Rightarrow> Inl e
                 | Inr ys \<Rightarrow> Inr (if b then x # ys else ys)))"

text \<open>
  \<^verbatim>\<open>[...new Set(xs)]\<close>: a \<^verbatim>\<open>Set\<close> keeps its elements in insertion order and
  \<^verbatim>\<open>add\<close> changes nothing when the element is already there.
\<close>

definition add :: "'a list \<Rightarrow> 'a \<Rightarrow> 'a list" where
  "add s x = (if x \<in> set s then s else s @ [x])"

definition newSet :: "'a list \<Rightarrow> 'a list" where
  "newSet xs = foldl add [] xs"

section \<open>The expression tree\<close>

text \<open>
  Modelled from the spec: the tree that the parser returns is not built by this
  repository's sources (section 3, Expression AST Node). A node is a literal with its
  value, an operator invocation with its name and its argument nodes (the node that the
  source recognises by \<^verbatim>\<open>type === "FunctionCall"\<close>; the receiver of a transform is its
  first argument, as \<^verbatim>\<open>transform.args[0]\<close> in the source), or a node of any other tag,
  with its \<^verbatim>\<open>value\<close> property (\<open>JUndefined\<close> when it has none) and its child nodes.
\<close>

datatype node =
    Literal jsval
  | FunctionCall string "node list"
  | Other string jsval "node list"

text \<open>The property reads \<^verbatim>\<open>node.type\<close>, \<^verbatim>\<open>node.name\<close>, \<^verbatim>\<open>node.args\<close>, \<^verbatim>\<open>node.value\<close>.\<close>

fun node_type :: "node \<Rightarrow> string" where
  "node_type (Literal v) = ''Literal''"
| "node_type (FunctionCall n xs) = ''FunctionCall''"
| "node_type (Other t v cs) = t"

fun node_name :: "node \<Rightarrow> string option" where
  "node_name (FunctionCall n xs) = Some n"
| "node_name (Literal v) = None"
| "node_name (Other t v cs) = None"

fun node_args :: "node \<Rightarrow> node list option" where
  "node_args (FunctionCall n xs) = Some xs"
| "node_args (Literal v) = None"
| "node_args (Other t v cs) = None"

fun node_value :: "node \<Rightarrow> jsval" where
  "node_value (Literal v) = v"
| "node_value (FunctionCall n xs) = JUndefined"
| "node_value (Other t v cs) = v"

text \<open>A transform as the walker hands it over: \<^verbatim>\<open>{ name, args }\<close>.\<close>

record transform =
  name :: string
  args :: "node list"

type_synonym jexl = "string \<Rightarrow> error + node"

text \<open>
  Modelled from the spec: \<^verbatim>\<open>getAST\<close> of \<^verbatim>\<open>utils/jexl\<close> is not among the sources
  (section 6, Parser interface: the context parses the expression text into a node, or
  fails with a syntax error that is passed on unchanged).
\<close>

definition getAST :: "jexl \<Rightarrow> string \<Rightarrow> error + node" where
  "getAST jexl expression = jexl expression"

text \<open>
  Modelled from the spec: \<^verbatim>\<open>getTransforms\<close> of \<^verbatim>\<open>utils/jexl\<close> is not among the
  sources (section 4.1, AST Walker: every transform node reachable from the root, at any
  depth, each once, in pre-order, the children in source order).
\<close>

fun getTransforms :: "node \<Rightarrow> transform list" where
  "getTransforms (Literal v) = []"
| "getTransforms (FunctionCall n xs) =
     \<lparr>name = n, args = xs\<rparr> # concat (map getTransforms xs)"
| "getTransforms (Other t v cs) = concat (map getTransforms cs)"

section \<open>Extraction of the dependency slugs\<close>

text \<open>
  The filter predicate of \<^verbatim>\<open>mapbyTransforms\<close>:
  \<^verbatim>\<open>transform.name === "mapby" && transform.args[0].type === "FunctionCall" &&
  transform.args[0].name === "answer"\<close>. The conjunction is evaluated from the left, so
  \<^verbatim>\<open>args[0]\<close> is read only for a transform named mapby, and the read of \<^verbatim>\<open>type\<close> throws
  when there is no first argument.
\<close>

definition isMapby :: "transform \<Rightarrow> error + bool" where
  "isMapby transform =
     (if name transform \<noteq> ''mapby'' then Inr False
      else (case at (args transform) 0 of
              None \<Rightarrow> Inl TypeError
            | Some a \<Rightarrow>
                Inr (node_type a = ''FunctionCall'' \<and> node_name a = Some ''answer'')))"

text \<open>\<^verbatim>\<open>transform.args[0].value\<close>\<close>

definition answerSlug :: "transform \<Rightarrow> error + jsval" where
  "answerSlug transform =
     (case at (args transform) 0 of
        None \<Rightarrow> Inl TypeError
      | Some a \<Rightarrow> Inr (node_value a))"

text \<open>\<^verbatim>\<open>`${transform.args[0].args[0].value}.${transform.args[1].value}`\<close>\<close>

definition mapbySlug :: "transform \<Rightarrow> error + jsval" where
  "mapbySlug transform =
     (case at (args transform) 0 of
        None \<Rightarrow> Inl TypeError
      | Some a \<Rightarrow>
          (case node_args a of
             None \<Rightarrow> Inl TypeError
           | Some ys \<Rightarrow>
               (case at ys 0 of
                  None \<Rightarrow> Inl TypeError
                | Some p \<Rightarrow>
                    (case at (args transform) 1 of
                       None \<Rightarrow> Inl TypeError
                     | Some c \<Rightarrow>
                         Inr (JString (toString (node_value p) @ ''.'' @
                                       toString (node_value c)))))))"

text \<open>
  The body of \<^verbatim>\<open>getDependenciesFromJexl\<close> after the walk (lines 18 to 36). First the
  two filters and the array \<^verbatim>\<open>[...answerTransforms.map(...), ...mapbyTransforms.map(...)]\<close>
  of the slugs as they are found: those of the answer transforms, then those of the
  mapby transforms.
\<close>

definition collectSlugs :: "transform list \<Rightarrow> error + jsval list" where
  "collectSlugs allTransforms =
     (let answerTransforms = filter (\<lambda>transform. name transform = ''answer'') allTransforms
      in case filterE isMapby allTransforms of
           Inl e \<Rightarrow> Inl e
         | Inr mapbyTransforms \<Rightarrow>
             (case mapE answerSlug answerTransforms of
                Inl e \<Rightarrow> Inl e
              | Inr direct \<Rightarrow>
                  (case mapE mapbySlug mapbyTransforms of
                     Inl e \<Rightarrow> Inl e
                   | Inr nested \<Rightarrow> Inr (direct @ nested))))"

text \<open>Then the \<^verbatim>\<open>Set\<close> that removes repeated slugs, spread into the array returned.\<close>

definition extractDependencies :: "transform list \<Rightarrow> error + jsval list" where
  "extractDependencies allTransforms =
     (case collectSlugs allTransforms of
        Inl e \<Rightarrow> Inl e
      | Inr found \<Rightarrow> Inr (newSet found))"

definition getDependenciesFromJexl :: "jexl \<Rightarrow> string \<Rightarrow> error + jsval list" where
  "getDependenciesFromJexl jexl expression =
     (case getAST jexl expression of
        Inl e \<Rightarrow> Inl e
      | Inr ast \<Rightarrow> extractDependencies (getTransforms ast))"

section \<open>Documents and fields\<close>

text \<open>
  Modelled from the spec: the classes of documents and fields are not among the sources
  (section 3). A document has an identity, the parser context \<^verbatim>\<open>jexl\<close> and a mapping
  from slugs to fields; a field has an identity and a value; the value of a table field
  is the sequence of its rows, each a document of its own, and the value of any other
  field is a primitive.
\<close>

datatype document =
    Document (uuid: string) (jexl: jexl) (fields: "(string \<times> field) list")
and field =
    Field (pk: string) (field_value: fieldvalue)
and fieldvalue =
    Scalar jsval
  | Table "document list"

text \<open>
  Modelled from the spec: the method \<^verbatim>\<open>document.findField(slug)\<close> is not among the
  sources (section 6, Document interface: the field of that slug, or nothing).
\<close>

definition document_findField :: "document \<Rightarrow> string \<Rightarrow> field option" where
  "document_findField d slug = map_of (fields d) slug"

text \<open>Truthiness of a field's value: an array is truthy, also the empty one.\<close>

fun truthyValue :: "fieldvalue \<Rightarrow> bool" where
  "truthyValue (Scalar v) = truthy v"
| "truthyValue (Table rows) = True"

section \<open>Resolution of the slugs to fields\<close>

text \<open>The message of the assertion in \<^verbatim>\<open>findField\<close>.\<close>

definition notFound :: "string \<Rightarrow> string \<Rightarrow> string \<Rightarrow> string" where
  "notFound slug docid expression =
     ''Field for question `'' @ slug @ ''` could not be found in the document `'' @ docid @
     ''`. Please verify that the jexl expression is correct: `'' @ expression @ ''`.''"

text \<open>
  \<^verbatim>\<open>assert(description, test)\<close> of \<^verbatim>\<open>@ember/debug\<close>, the assertion that the source
  uses for a missing field. It is a debug-only assertion (section 9 of the
  specification): in a build that has the assertions compiled in it throws an error with
  the description when the test is falsy, and a production build strips the call, so
  that nothing happens there. \<open>DEBUG\<close> says which build runs; every function that
  reaches the assertion takes it as its first argument.
\<close>

definition assert :: "bool \<Rightarrow> string \<Rightarrow> bool \<Rightarrow> error + unit" where
  "assert DEBUG description test =
     (if DEBUG \<and> \<not> test then Inl (AssertionFailed description) else Inr ())"

text \<open>
  \<^verbatim>\<open>findField(document, slug, expression)\<close>: the lookup, then the assertion that a field
  was found, then \<^verbatim>\<open>return field\<close>, which is the field or, where the assertion did
  not throw, \<^verbatim>\<open>undefined\<close> (\<open>None\<close>).
\<close>

definition findField :: "bool \<Rightarrow> document \<Rightarrow> string \<Rightarrow> string \<Rightarrow> error + field option" where
  "findField DEBUG d slug expression =
     (let field = document_findField d slug
      in case assert DEBUG (notFound slug (uuid d) expression) (field \<noteq> None) of
           Inl e \<Rightarrow> Inl e
         | Inr u \<Rightarrow> Inr field)"

text \<open>\<^verbatim>\<open>s.split(sep)\<close> for a separator of one character: at least one part, always.\<close>

fun splitStr :: "char \<Rightarrow> string \<Rightarrow> string list" where
  "splitStr sep [] = [[]]"
| "splitStr sep (c # cs) =
     (if c = sep then [] # splitStr sep cs
      else (case splitStr sep cs of
              [] \<Rightarrow> [[c]]
            | w # ws \<Rightarrow> (c # w) # ws))"

text \<open>
  \<^verbatim>\<open>!nestedSlug\<close> is true for \<^verbatim>\<open>null\<close> (no second part) and for the empty string.
\<close>

fun truthySlug :: "string option \<Rightarrow> bool" where
  "truthySlug None = False"
| "truthySlug (Some s) = (s \<noteq> [])"

text \<open>
  The callback of \<^verbatim>\<open>flatMap\<close> in \<^verbatim>\<open>dependencies\<close> (lines 108 to 128). An entry of
  the sequences is a field, or \<^verbatim>\<open>null\<close> or \<^verbatim>\<open>undefined\<close> (both \<open>None\<close>); the
  callback's \<^verbatim>\<open>return null\<close> is kept by \<^verbatim>\<open>flatMap\<close> as one entry. A slug that is no
  string has no \<^verbatim>\<open>split\<close>, the read \<^verbatim>\<open>field.value\<close> of a field that is
  \<^verbatim>\<open>undefined\<close> throws, and a truthy value that is no array has no \<^verbatim>\<open>map\<close>. The
  destructuring \<^verbatim>\<open>[fieldSlug, nestedSlug = null]\<close> takes the first part and, where there
  is one, the second; \<^verbatim>\<open>split\<close> never returns the empty array, so the first case of
  the match on the parts is never taken. The test
  \<^verbatim>\<open>!onlyNestedParents && nestedSlug && field.value\<close> is evaluated from the left: it
  fails for \<^verbatim>\<open>null\<close> and for the empty string before the field is read.
\<close>

definition resolveSlug ::
  "bool \<Rightarrow> bool \<Rightarrow> document \<Rightarrow> string \<Rightarrow> jsval \<Rightarrow> error + field option list" where
  "resolveSlug DEBUG onlyNestedParents d expression slug =
     (case slug of
        JString s \<Rightarrow>
          (case splitStr (CHR ''.'') s of
             [] \<Rightarrow> Inl TypeError
           | fieldSlug # rest \<Rightarrow>
               (let nestedSlug = at rest 0
                in if onlyNestedParents \<and> \<not> truthySlug nestedSlug then Inr [None]
                   else (case findField DEBUG d fieldSlug expression of
                           Inl e \<Rightarrow> Inl e
                         | Inr field \<Rightarrow>
                             (case nestedSlug of
                                None \<Rightarrow> Inr [field]
                              | Some n \<Rightarrow>
                                  if \<not> onlyNestedParents \<and> n \<noteq> []
                                  then (case field of
                                          None \<Rightarrow> Inl TypeError
                                        | Some f \<Rightarrow>
                                            if truthyValue (field_value f)
                                            then (case field_value f of
                                                    Scalar v \<Rightarrow> Inl TypeError
                                                  | Table rows \<Rightarrow>
                                                      (case mapE (\<lambda>row. findField DEBUG row n
                                                                      expression) rows of
                                                         Inl e \<Rightarrow> Inl e
                                                       | Inr children \<Rightarrow>
                                                           Inr (field # children)))
                                            else Inr [field])
                                  else Inr [field]))))
      | _ \<Rightarrow> Inl TypeError)"

text \<open>
  \<^verbatim>\<open>xs.flatMap(f)\<close> and the predicate of \<^verbatim>\<open>filter(Boolean)\<close>: an object is truthy,
  \<^verbatim>\<open>null\<close> and \<^verbatim>\<open>undefined\<close> are not.
\<close>

definition flatMapE :: "('a \<Rightarrow> error + 'b list) \<Rightarrow> 'a list \<Rightarrow> error + 'b list" where
  "flatMapE f xs = (case mapE f xs of Inl e \<Rightarrow> Inl e | Inr yss \<Rightarrow> Inr (concat yss))"

fun Boolean :: "field option \<Rightarrow> bool" where
  "Boolean None = False"
| "Boolean (Some field) = True"

text \<open>
  The options of \<^verbatim>\<open>dependencies\<close>, and the object that owns the computed property:
  its document, and the expression texts that \<^verbatim>\<open>get(this, expressionPath)\<close> reads
  (\<open>None\<close> for an absent one). \<^verbatim>\<open>nestedParentsPath\<close> only names a further key that
  triggers recomputation; the computed function does not read it.
\<close>

record options =
  onlyNestedParents :: bool
  nestedParentsPath :: "string option"

record owner =
  document :: document
  get :: "string \<Rightarrow> string option"

text \<open>The function that \<^verbatim>\<open>dependencies\<close> computes (lines 100 to 130).\<close>

definition dependencies ::
  "bool \<Rightarrow> string \<Rightarrow> options \<Rightarrow> owner \<Rightarrow> error + field option list" where
  "dependencies DEBUG expressionPath opts this =
     (case get this expressionPath of
        None \<Rightarrow> Inr []
      | Some expression \<Rightarrow>
          if expression = [] then Inr []
          else (case getDependenciesFromJexl (jexl (document this)) expression of
                  Inl e \<Rightarrow> Inl e
                | Inr slugs \<Rightarrow>
                    (case flatMapE (resolveSlug DEBUG (onlyNestedParents opts) (document this)
                                      expression) slugs of
                       Inl e \<Rightarrow> Inl e
                     | Inr found \<Rightarrow> Inr (filter Boolean found))))"

definition nestedDependencyParents ::
  "bool \<Rightarrow> string \<Rightarrow> owner \<Rightarrow> error + field option list" where
  "nestedDependencyParents DEBUG expressionPath =
     dependencies DEBUG expressionPath \<lparr>onlyNestedParents = True, nestedParentsPath = None\<rparr>"

section \<open>Reading a rendered identifier\<close>

text \<open>
  An identifier is kept as its rendered string, \<^verbatim>\<open>slug\<close> or \<^verbatim>\<open>parent.child\<close>. The
  parent slug of a rendered identifier is its text before the first dot, the child slug
  the text between the first and the second dot, and the identifier is nested when its
  child slug is not empty. The position at which a slug is found first, for the order of
  the slugs extracted.
\<close>

definition parentSlug :: "string \<Rightarrow> string" where
  "parentSlug s = takeWhile (\<lambda>c. c \<noteq> CHR ''.'') s"

definition childSlug :: "string \<Rightarrow> string" where
  "childSlug s = takeWhile (\<lambda>c. c \<noteq> CHR ''.'') (drop (Suc (length (parentSlug s))) s)"

definition isNested :: "string \<Rightarrow> bool" where
  "isNested s = (childSlug s \<noteq> [])"

definition firstIndex :: "'a list \<Rightarrow> 'a \<Rightarrow> nat" where
  "firstIndex xs x = length (takeWhile (\<lambda>y. y \<noteq> x) xs)"

section \<open>The running examples\<close>

text \<open>
  The expression of the source's own documentation and the tree it parses to (the
  comparison \<^verbatim>\<open>in\<close> of an answer read with a mapby over an answer read), a single
  answer read, a comparison of two reads of the same answer, and an answer read whose
  slug has a dot. The parser context of the examples knows these four texts.
\<close>

definition example_expression :: string where
  "example_expression = '''foo'|answer in 'bar'|answer|mapby('column')''"

definition example_ast :: node where
  "example_ast =
     Other ''BinaryExpression'' JUndefined
       [FunctionCall ''answer'' [Literal (JString ''foo'')],
        FunctionCall ''mapby''
          [FunctionCall ''answer'' [Literal (JString ''bar'')],
           Literal (JString ''column'')]]"

definition direct_expression :: string where
  "direct_expression = '''foo'|answer''"

definition direct_ast :: node where
  "direct_ast = FunctionCall ''answer'' [Literal (JString ''foo'')]"

definition twice_expression :: string where
  "twice_expression = '''foo'|answer == 'foo'|answer''"

definition twice_ast :: node where
  "twice_ast =
     Other ''BinaryExpression'' JUndefined
       [FunctionCall ''answer'' [Literal (JString ''foo'')],
        FunctionCall ''answer'' [Literal (JString ''foo'')]]"

definition dotted_expression :: string where
  "dotted_expression = '''bar.column'|answer''"

definition dotted_ast :: node where
  "dotted_ast = FunctionCall ''answer'' [Literal (JString ''bar.column'')]"

definition example_jexl :: jexl where
  "example_jexl expression =
     (if expression = example_expression then Inr example_ast
      else if expression = direct_expression then Inr direct_ast
      else if expression = twice_expression then Inr twice_ast
      else if expression = dotted_expression then Inr dotted_ast
      else Inl ParseError)"

text \<open>
  A document with the scalar field \<^verbatim>\<open>foo\<close> and the table field \<^verbatim>\<open>bar\<close> of three
  rows, each with a field \<^verbatim>\<open>column\<close>; the same document with an empty table; a
  document with no field at all.
\<close>

definition example_column :: "string \<Rightarrow> field" where
  "example_column n = Field (''row-'' @ n @ '':column'') (Scalar (JString n))"

definition example_row :: "string \<Rightarrow> document" where
  "example_row n = Document (''row-'' @ n) example_jexl [(''column'', example_column n)]"

definition foo_field :: field where
  "foo_field = Field ''doc:foo'' (Scalar (JString ''1''))"

definition bar_field :: field where
  "bar_field = Field ''doc:bar'' (Table [example_row ''1'', example_row ''2'', example_row ''3''])"

definition example_document :: document where
  "example_document =
     Document ''doc'' example_jexl [(''foo'', foo_field), (''bar'', bar_field)]"

definition empty_bar_field :: field where
  "empty_bar_field = Field ''doc:bar'' (Table [])"

definition empty_table_document :: document where
  "empty_table_document =
     Document ''doc'' example_jexl [(''foo'', foo_field), (''bar'', empty_bar_field)]"

definition empty_document :: document where
  "empty_document = Document ''doc'' example_jexl []"

text \<open>
  A document for slugs with dots and for the empty slug. Its row has a field of the
  empty slug, a field \<^verbatim>\<open>col\<close> and a field \<^verbatim>\<open>col.umn\<close>; the table of that one row
  is the value of its field \<^verbatim>\<open>bar\<close> and of its field \<^verbatim>\<open>ba.r\<close>, and it has no
  field \<^verbatim>\<open>ba\<close>.
\<close>

definition odd_field :: "string \<Rightarrow> field" where
  "odd_field slug = Field (''row:'' @ slug) (Scalar (JString ''1''))"

definition odd_row :: document where
  "odd_row =
     Document ''row'' example_jexl
       [('''', odd_field ''''), (''col'', odd_field ''col''),
        (''col.umn'', odd_field ''col.umn''), (''column'', odd_field ''column'')]"

definition odd_table :: "string \<Rightarrow> field" where
  "odd_table slug = Field (''doc:'' @ slug) (Table [odd_row])"

definition odd_document :: document where
  "odd_document =
     Document ''doc'' example_jexl [(''bar'', odd_table ''bar''), (''ba.r'', odd_table ''ba.r'')]"

text \<open>The owner of the computed property: it reads its expression at the path \<^verbatim>\<open>jexl\<close>.\<close>

definition example_owner :: "document \<Rightarrow> string \<Rightarrow> owner" where
  "example_owner d expression =
     \<lparr>document = d, get = (\<lambda>path. if path = ''jexl'' then Some expression else None)\<rparr>"

definition all_fields :: options where
  "all_fields = \<lparr>onlyNestedParents = False, nestedParentsPath = None\<rparr>"

section \<open>Facts about the loops, the set and the walker\<close>

lemma mapE_Inr_D: "mapE f xs = Inr ys \<Longrightarrow> list_all2 (\<lambda>x y. f x = Inr y) xs ys"
  by (induction xs arbitrary: ys) (auto split: sum.splits)

lemma mapE_member_fails: "x \<in> set xs \<Longrightarrow> f x = Inl e \<Longrightarrow> \<exists>e'. mapE f xs = Inl e'"
  by (induction xs) (auto split: sum.splits)

lemma mapE_first_failure:
  "mapE f pre = Inr ys \<Longrightarrow> f x = Inl e \<Longrightarrow> mapE f (pre @ x # post) = Inl e"
  by (induction pre arbitrary: ys) (auto split: sum.splits)

lemma mapE_member_result:
  "mapE f xs = Inr ys \<Longrightarrow> x \<in> set xs \<Longrightarrow> \<exists>y. f x = Inr y \<and> y \<in> set ys"
  by (induction xs arbitrary: ys) (auto split: sum.splits)

lemma filterE_drop: "p t = Inr False \<Longrightarrow> filterE p (ts1 @ t # ts2) = filterE p (ts1 @ ts2)"
  by (induction ts1) (auto split: sum.splits)

lemma filterE_member:
  "filterE p xs = Inr ys \<Longrightarrow> x \<in> set xs \<Longrightarrow> p x = Inr True \<Longrightarrow> x \<in> set ys"
  by (induction xs arbitrary: ys) (auto split: sum.splits if_splits)

lemma set_foldl_add: "set (foldl add acc xs) = set acc \<union> set xs"
  by (induction xs arbitrary: acc) (auto simp: add_def)

lemma distinct_foldl_add: "distinct acc \<Longrightarrow> distinct (foldl add acc xs)"
  by (induction xs arbitrary: acc) (auto simp: add_def)

lemma firstIndex_seen: "a \<in> set pre \<Longrightarrow> firstIndex (pre @ rest) a < length pre"
  unfolding firstIndex_def
  by (induction pre) auto

lemma firstIndex_unseen: "x \<notin> set pre \<Longrightarrow> firstIndex (pre @ x # rest) x = length pre"
  unfolding firstIndex_def
  by (induction pre) auto

lemma ordered_foldl_add:
  "sorted_wrt (\<lambda>a b. firstIndex (pre @ rest) a < firstIndex (pre @ rest) b) acc
   \<Longrightarrow> set acc = set pre
   \<Longrightarrow> sorted_wrt (\<lambda>a b. firstIndex (pre @ rest) a < firstIndex (pre @ rest) b)
         (foldl add acc rest)"
proof (induction rest arbitrary: pre acc)
  case Nil
  then show ?case by simp
next
  case (Cons x rest)
  have whole: "(pre @ [x]) @ rest = pre @ x # rest" by simp
  show ?case
  proof (cases "x \<in> set acc")
    case True
    with Cons.prems have "set (add acc x) = set (pre @ [x])" and "add acc x = acc"
      by (auto simp: add_def)
    with Cons.IH [of "pre @ [x]" "add acc x"] Cons.prems(1) show ?thesis
      by (simp only: whole foldl_Cons)
  next
    case False
    with Cons.prems(2) have unseen: "x \<notin> set pre" by simp
    have "\<forall>a \<in> set acc. firstIndex (pre @ x # rest) a < firstIndex (pre @ x # rest) x"
      using firstIndex_seen [of _ pre "x # rest"] firstIndex_unseen [OF unseen, of rest]
        Cons.prems(2) by simp
    with Cons.prems(1) False
    have "sorted_wrt (\<lambda>a b. firstIndex (pre @ x # rest) a < firstIndex (pre @ x # rest) b)
            (add acc x)"
      by (simp add: add_def sorted_wrt_append)
    moreover have "set (add acc x) = set (pre @ [x])"
      using False Cons.prems(2) by (simp add: add_def)
    ultimately show ?thesis
      using Cons.IH [of "pre @ [x]" "add acc x"] by (simp only: whole foldl_Cons)
  qed
qed

lemma distinct_newSet: "distinct (newSet xs)"
  by (simp add: newSet_def distinct_foldl_add)

lemma set_newSet: "set (newSet xs) = set xs"
  by (simp add: newSet_def set_foldl_add)

lemma ordered_newSet: "sorted_wrt (\<lambda>a b. firstIndex xs a < firstIndex xs b) (newSet xs)"
  using ordered_foldl_add [of "[]" xs "[]"] by (simp add: newSet_def)

lemma getTransforms_closed:
  "\<lparr>name = n, args = xs\<rparr> \<in> set (getTransforms ast) \<Longrightarrow> FunctionCall m ys \<in> set xs
   \<Longrightarrow> \<lparr>name = m, args = ys\<rparr> \<in> set (getTransforms ast)"
proof (induction ast)
  case (Literal v)
  then show ?case by simp
next
  case (FunctionCall k zs)
  then show ?case by fastforce
next
  case (Other t v cs)
  then show ?case by fastforce
qed

text \<open>\<^verbatim>\<open>split\<close> never returns the empty array: the first case of the match in \<open>resolveSlug\<close> is dead.\<close>

lemma splitStr_nonempty: "splitStr sep s \<noteq> []"
  by (induction s) (auto split: list.splits)

lemma splitStr_plain: "sep \<notin> set s \<Longrightarrow> splitStr sep s = [s]"
  by (induction s) auto

section \<open>Facts about the parts of a slug and about resolution\<close>

lemma splitStr_head: "\<exists>ws. splitStr sep s = takeWhile (\<lambda>c. c \<noteq> sep) s # ws"
  by (induction s) auto

lemma splitStr_decomp:
  "sep \<in> set s \<Longrightarrow>
   splitStr sep s =
     takeWhile (\<lambda>c. c \<noteq> sep) s #
     splitStr sep (drop (Suc (length (takeWhile (\<lambda>c. c \<noteq> sep) s))) s)"
  by (induction s) auto

lemma parts_plain:
  assumes "CHR ''.'' \<notin> set s"
  shows "splitStr (CHR ''.'') s = [s]" and "parentSlug s = s" and "\<not> isNested s"
proof -
  show "splitStr (CHR ''.'') s = [s]"
    using assms by (rule splitStr_plain)
  show p: "parentSlug s = s"
    using assms by (auto simp: parentSlug_def takeWhile_eq_all_conv)
  show "\<not> isNested s"
    by (simp add: isNested_def childSlug_def p)
qed

lemma parts_dotted:
  assumes "CHR ''.'' \<in> set s"
  shows "\<exists>ws. splitStr (CHR ''.'') s = parentSlug s # childSlug s # ws"
proof -
  obtain ws where "splitStr (CHR ''.'') (drop (Suc (length (parentSlug s))) s) = childSlug s # ws"
    using splitStr_head [of "CHR ''.''" "drop (Suc (length (parentSlug s))) s"]
    by (auto simp: childSlug_def)
  with splitStr_decomp [OF assms] show ?thesis
    by (simp add: parentSlug_def)
qed

text \<open>The callback on a string, in terms of the parent and the child slug.\<close>

lemma resolveSlug_string:
  "resolveSlug DEBUG onp d e (JString s) =
   (if onp \<and> \<not> isNested s then Inr [None]
    else (case findField DEBUG d (parentSlug s) e of
            Inl err \<Rightarrow> Inl err
          | Inr field \<Rightarrow>
              if \<not> onp \<and> isNested s
              then (case field of
                      None \<Rightarrow> Inl TypeError
                    | Some f \<Rightarrow>
                        if truthyValue (field_value f)
                        then (case field_value f of
                                Scalar v \<Rightarrow> Inl TypeError
                              | Table rows \<Rightarrow>
                                  (case mapE (\<lambda>row. findField DEBUG row (childSlug s) e) rows of
                                     Inl err \<Rightarrow> Inl err
                                   | Inr children \<Rightarrow> Inr (field # children)))
                        else Inr [field])
              else Inr [field]))"
proof (cases "CHR ''.'' \<in> set s")
  case False
  from parts_plain [OF this] show ?thesis
    by (simp add: resolveSlug_def at_def split: sum.splits)
next
  case True
  from parts_dotted [OF this] obtain ws
    where "splitStr (CHR ''.'') s = parentSlug s # childSlug s # ws" ..
  then show ?thesis
    by (simp add: resolveSlug_def at_def isNested_def split: sum.splits)
qed

lemma findField_found:
  "document_findField d slug = Some f \<Longrightarrow> findField DEBUG d slug e = Inr (Some f)"
  by (simp add: findField_def assert_def)

lemma findField_missing:
  "document_findField d slug = None \<Longrightarrow>
   findField DEBUG d slug e =
     (if DEBUG then Inl (AssertionFailed (notFound slug (uuid d) e)) else Inr None)"
  by (simp add: findField_def assert_def)

lemma findField_Inr:
  "findField DEBUG d slug e = Inr x \<Longrightarrow>
   x = document_findField d slug \<and> (DEBUG \<longrightarrow> x \<noteq> None)"
  by (auto simp: findField_def assert_def Let_def split: if_splits)

lemma takeWhile_upto: "sep \<notin> set p \<Longrightarrow> takeWhile (\<lambda>c. c \<noteq> sep) (p @ sep # r) = p"
  by (induction p) auto

lemma takeWhile_whole: "sep \<notin> set p \<Longrightarrow> takeWhile (\<lambda>c. c \<noteq> sep) p = p"
  by (induction p) auto

lemma render_parts:
  assumes "CHR ''.'' \<notin> set parent" and "CHR ''.'' \<notin> set child"
  shows "parentSlug (parent @ CHR ''.'' # child) = parent"
    and "childSlug (parent @ CHR ''.'' # child) = child"
proof -
  show p: "parentSlug (parent @ CHR ''.'' # child) = parent"
    using assms(1) by (simp add: parentSlug_def takeWhile_upto)
  show "childSlug (parent @ CHR ''.'' # child) = child"
    using assms(2) by (simp add: childSlug_def p takeWhile_whole)
qed

lemma parentSlug_nested: "parentSlug (p @ CHR ''.'' # c) = parentSlug p"
proof (cases "CHR ''.'' \<in> set p")
  case True
  then show ?thesis
    by (auto simp: parentSlug_def takeWhile_append1)
next
  case False
  then show ?thesis
    by (simp add: parentSlug_def takeWhile_upto takeWhile_whole)
qed

lemma findField_rows:
  "list_all2 (\<lambda>row f. document_findField row child = Some f) rows children \<Longrightarrow>
   mapE (\<lambda>row. findField DEBUG row child e) rows = Inr (map Some children)"
  by (induction rule: list_all2_induct) (auto simp: findField_found)

lemma mapE_all_succeed: "\<forall>x \<in> set xs. \<exists>y. f x = Inr y \<Longrightarrow> \<exists>ys. mapE f xs = Inr ys"
  by (induction xs) auto

lemma dependencies_unfold:
  assumes "get this path = Some e" and "e \<noteq> []"
    and "getDependenciesFromJexl (jexl (document this)) e = Inr slugs"
  shows "dependencies DEBUG path opts this =
     (case mapE (resolveSlug DEBUG (onlyNestedParents opts) (document this) e) slugs of
        Inl err \<Rightarrow> Inl err
      | Inr per \<Rightarrow> Inr (filter Boolean (concat per)))"
  using assms by (simp add: dependencies_def flatMapE_def split: sum.splits)

lemma Boolean_Some: "filter Boolean (map Some fs) = map Some fs"
  by (induction fs) auto



lemma segment_of_concat:
  assumes "mapE f xs = Inr per" and "x \<in> set xs" and "f x = Inr r"
  shows "\<exists>pre post. filter P (concat per) = pre @ filter P r @ post"
proof -
  from assms(2) obtain ys zs where xs: "xs = ys @ x # zs"
    by (auto dest: split_list)
  from mapE_Inr_D [OF assms(1)] obtain ps r' qs where "per = ps @ r' # qs" and "f x = Inr r'"
    unfolding xs by (auto simp: list_all2_append1 list_all2_Cons1)
  with assms(3) have "filter P (concat per) =
      filter P (concat ps) @ filter P r @ filter P (concat qs)"
    by simp
  then show ?thesis by blast
qed

lemma list_all2_member:
  "list_all2 R xs ys \<Longrightarrow> x \<in> set xs \<Longrightarrow> \<exists>y \<in> set ys. R x y"
  by (induction rule: list_all2_induct) auto

lemma two_hits:
  assumes "list_all2 R xs per" and "x \<in> set xs" and "y \<in> set xs" and "x \<noteq> y"
    and "\<And>r. R x r \<Longrightarrow> a \<in> set r" and "\<And>r. R y r \<Longrightarrow> a \<in> set r" and "P a"
  shows "\<not> distinct (filter P (concat per))"
  using assms(1-4)
proof (induction rule: list_all2_induct)
  case Nil
  then show ?case by simp
next
  case (Cons x' xs r' per)
  have later: "a \<in> set (concat per)" if "z \<in> set xs" and "\<And>r. R z r \<Longrightarrow> a \<in> set r" for z
  proof -
    from list_all2_member [OF Cons.hyps(2) that(1)] obtain r where "r \<in> set per" and "R z r"
      by auto
    with that(2) show ?thesis by auto
  qed
  show ?case
  proof (cases "x' = x")
    case True
    with Cons.prems Cons.hyps(1) have "a \<in> set r'" and "a \<in> set (concat per)"
      using assms(5) later [of y] assms(6) by auto
    then show ?thesis using assms(7) by auto
  next
    case False
    show ?thesis
    proof (cases "x' = y")
      case True
      with Cons.prems Cons.hyps(1) have "a \<in> set r'" and "a \<in> set (concat per)"
        using assms(6) later [of x] assms(5) by auto
      then show ?thesis using assms(7) by auto
    next
      case other: False
      with False Cons.prems Cons.IH show ?thesis by auto
    qed
  qed
qed

text \<open>
  A slug that resolves when all fields are asked for has its parent field first in what
  it resolves to, in a build with the assertion, for a nested slug, or when the field is
  there.
\<close>

lemma resolved_head:
  assumes "resolveSlug DEBUG False d e (JString s) = Inr r"
    and "DEBUG \<or> isNested s \<or> document_findField d (parentSlug s) \<noteq> None"
  shows "\<exists>f. document_findField d (parentSlug s) = Some f \<and> Some f \<in> set r"
proof -
  from assms(1) obtain x where x: "findField DEBUG d (parentSlug s) e = Inr x"
    by (auto simp: resolveSlug_string split: sum.splits)
  have eq: "x = document_findField d (parentSlug s)" and dbg: "DEBUG \<longrightarrow> x \<noteq> None"
    using findField_Inr [OF x] by auto
  have "x \<noteq> None"
  proof
    assume none: "x = None"
    with eq dbg assms(2) have "isNested s" by auto
    with assms(1) x none show False
      by (simp add: resolveSlug_string)
  qed
  then obtain f where f: "x = Some f" by auto
  from assms(1) x f have "Some f \<in> set r"
    by (auto simp: resolveSlug_string split: if_splits fieldvalue.splits sum.splits)
  with f eq show ?thesis by auto
qed


section \<open>Extraction\<close>

lemmas extraction_defs =
  getDependenciesFromJexl_def getAST_def extractDependencies_def collectSlugs_def
  isMapby_def answerSlug_def mapbySlug_def at_def newSet_def add_def

text \<open>
  C1, as the code has it. For the expression
  \<^verbatim>\<open>'foo'|answer in 'bar'|answer|mapby('column')\<close>, whatever parser context parses it to
  the tree of the example, extraction returns three slugs, in this order: \<^verbatim>\<open>foo\<close>,
  \<^verbatim>\<open>bar\<close> and \<^verbatim>\<open>bar.column\<close>. The answer read under the mapby is an answer
  transform of its own, so the parent slug \<^verbatim>\<open>bar\<close> is extracted next to the nested
  identifier, as the documentation of \<^verbatim>\<open>getDependenciesFromJexl\<close> says.
\<close>

theorem example_extraction:
  "j e = Inr example_ast \<Longrightarrow>
   getDependenciesFromJexl j e = Inr [JString ''foo'', JString ''bar'', JString ''bar.column'']"
  by (simp add: extraction_defs example_ast_def)

lemma example_parse: "example_jexl example_expression = Inr example_ast"
  by (simp add: example_jexl_def)

theorem example_extraction_witness:
  "example_jexl example_expression = Inr example_ast \<and>
   getDependenciesFromJexl example_jexl example_expression =
     Inr [JString ''foo'', JString ''bar'', JString ''bar.column'']"
  using example_extraction [of example_jexl example_expression] example_parse by simp

text \<open>
  C1 as stated fails: the result for the example is not the two identifiers
  \<^verbatim>\<open>foo\<close> and \<^verbatim>\<open>bar.column\<close> alone.
\<close>

theorem example_extraction_not_two:
  "getDependenciesFromJexl example_jexl example_expression \<noteq>
     Inr [JString ''foo'', JString ''bar.column'']"
  by (simp add: extraction_defs example_parse example_ast_def)

text \<open>
  C5. Whenever extraction returns, its result has no slug twice (the slugs are kept
  in their rendered form, so two identifiers are the same entry exactly when their
  rendered forms are equal), it has exactly the slugs that were found, and it lists them
  in the order of their first occurrence among the slugs found (those of the answer
  transforms, then those of the mapby transforms, each in the order of the walk). The
  witness is an expression that reads \<^verbatim>\<open>'foo'|answer\<close> twice: one \<^verbatim>\<open>foo\<close> is returned.
\<close>

theorem extraction_first_occurrences:
  assumes "getDependenciesFromJexl j e = Inr slugs"
  shows "\<exists>ast found. j e = Inr ast \<and> collectSlugs (getTransforms ast) = Inr found \<and>
           distinct slugs \<and> set slugs = set found \<and>
           sorted_wrt (\<lambda>a b. firstIndex found a < firstIndex found b) slugs"
proof -
  from assms obtain ast where ast: "j e = Inr ast"
    and "extractDependencies (getTransforms ast) = Inr slugs"
    by (auto simp: getDependenciesFromJexl_def getAST_def split: sum.splits)
  then obtain found where found: "collectSlugs (getTransforms ast) = Inr found"
    and slugs: "slugs = newSet found"
    by (auto simp: extractDependencies_def split: sum.splits)
  show ?thesis
    using ast found distinct_newSet [of found] set_newSet [of found] ordered_newSet [of found]
    unfolding slugs by blast
qed

lemma twice_parse: "example_jexl twice_expression = Inr twice_ast"
  by (simp add: example_jexl_def twice_expression_def example_expression_def
      direct_expression_def)

lemma twice_slugs: "getDependenciesFromJexl example_jexl twice_expression = Inr [JString ''foo'']"
  by (simp add: extraction_defs twice_parse twice_ast_def)

theorem extraction_first_occurrences_witness:
  "getDependenciesFromJexl example_jexl twice_expression = Inr [JString ''foo''] \<and>
   collectSlugs (getTransforms twice_ast) = Inr [JString ''foo'', JString ''foo''] \<and>
   (\<exists>ast found. example_jexl twice_expression = Inr ast \<and>
      collectSlugs (getTransforms ast) = Inr found \<and>
      distinct [JString ''foo''] \<and> set [JString ''foo''] = set found \<and>
      sorted_wrt (\<lambda>a b. firstIndex found a < firstIndex found b) [JString ''foo''])"
proof -
  have "collectSlugs (getTransforms twice_ast) = Inr [JString ''foo'', JString ''foo'']"
    by (simp add: extraction_defs twice_ast_def)
  with extraction_first_occurrences [OF twice_slugs] twice_slugs show ?thesis
    by simp
qed

text \<open>
  C6. A mapby transform whose first argument is anything but an answer transform
  contributes nothing: extraction gives the same result, or the same error, with the
  transform and without it, wherever it stands in the list of transforms.
\<close>

theorem mapby_without_answer_excluded:
  assumes "name t = ''mapby''" and "args t = a # rest"
    and "\<And>xs. a \<noteq> FunctionCall ''answer'' xs"
  shows "extractDependencies (ts1 @ t # ts2) = extractDependencies (ts1 @ ts2)"
proof -
  have "\<not> (node_type a = ''FunctionCall'' \<and> node_name a = Some ''answer'')"
    using assms(3) by (cases a) auto
  with assms(1,2) have "isMapby t = Inr False"
    by (simp add: isMapby_def at_def)
  then have "filterE isMapby (ts1 @ t # ts2) = filterE isMapby (ts1 @ ts2)"
    by (rule filterE_drop)
  moreover have "filter (\<lambda>transform. name transform = ''answer'') (ts1 @ t # ts2) =
      filter (\<lambda>transform. name transform = ''answer'') (ts1 @ ts2)"
    using assms(1) by simp
  ultimately show ?thesis
    by (simp only: extractDependencies_def collectSlugs_def Let_def)
qed

theorem mapby_without_answer_excluded_witness:
  "extractDependencies
     ([\<lparr>name = ''answer'', args = [Literal (JString ''foo'')]\<rparr>] @
      \<lparr>name = ''mapby'',
        args = [FunctionCall ''other'' [Literal (JString ''bar'')], Literal (JString ''column'')]\<rparr> #
      [\<lparr>name = ''other'', args = [Literal (JString ''bar'')]\<rparr>]) =
   extractDependencies
     ([\<lparr>name = ''answer'', args = [Literal (JString ''foo'')]\<rparr>] @
      [\<lparr>name = ''other'', args = [Literal (JString ''bar'')]\<rparr>]) \<and>
   extractDependencies
     ([\<lparr>name = ''answer'', args = [Literal (JString ''foo'')]\<rparr>] @
      [\<lparr>name = ''other'', args = [Literal (JString ''bar'')]\<rparr>]) = Inr [JString ''foo'']"
proof -
  have "extractDependencies
     ([\<lparr>name = ''answer'', args = [Literal (JString ''foo'')]\<rparr>] @
      [\<lparr>name = ''other'', args = [Literal (JString ''bar'')]\<rparr>]) = Inr [JString ''foo'']"
    by (simp add: extraction_defs)
  with mapby_without_answer_excluded
    [of "\<lparr>name = ''mapby'',
        args = [FunctionCall ''other'' [Literal (JString ''bar'')], Literal (JString ''column'')]\<rparr>"
      "FunctionCall ''other'' [Literal (JString ''bar'')]" "[Literal (JString ''column'')]"
      "[\<lparr>name = ''answer'', args = [Literal (JString ''foo'')]\<rparr>]"
      "[\<lparr>name = ''other'', args = [Literal (JString ''bar'')]\<rparr>]"]
  show ?thesis by simp
qed

text \<open>
  C9. When extraction returns, every mapby over an answer read of the expression has
  its nested identifier \<^verbatim>\<open>parent.child\<close> in the result, and the bare parent slug is in
  the result too: the walker also hands over the answer transform under the mapby.
\<close>

theorem nested_identifier_has_parent:
  assumes "getDependenciesFromJexl j e = Inr slugs" and "j e = Inr ast"
    and "\<lparr>name = ''mapby'', args = FunctionCall ''answer'' (p # ps) # c # cs\<rparr>
           \<in> set (getTransforms ast)"
  shows "JString (toString (node_value p) @ ''.'' @ toString (node_value c)) \<in> set slugs \<and>
         node_value p \<in> set slugs"
proof -
  let ?m = "\<lparr>name = ''mapby'', args = FunctionCall ''answer'' (p # ps) # c # cs\<rparr>"
  let ?a = "\<lparr>name = ''answer'', args = p # ps\<rparr>"
  let ?ts = "getTransforms ast"
  from assms(1,2) obtain found where found: "collectSlugs ?ts = Inr found"
    and slugs: "slugs = newSet found"
    by (auto simp: getDependenciesFromJexl_def getAST_def extractDependencies_def
        split: sum.splits)
  from found obtain mapbys direct nested where
    mapbys: "filterE isMapby ?ts = Inr mapbys"
    and direct: "mapE answerSlug (filter (\<lambda>t. name t = ''answer'') ?ts) = Inr direct"
    and nested: "mapE mapbySlug mapbys = Inr nested"
    and all: "found = direct @ nested"
    by (auto simp: collectSlugs_def split: sum.splits)
  have "isMapby ?m = Inr True"
    by (simp add: isMapby_def at_def)
  with mapbys assms(3) have "?m \<in> set mapbys"
    by (rule filterE_member)
  from mapE_member_result [OF nested this]
  obtain y where "mapbySlug ?m = Inr y" and "y \<in> set nested"
    by auto
  then have child: "JString (toString (node_value p) @ ''.'' @ toString (node_value c))
      \<in> set nested"
    by (simp add: mapbySlug_def at_def)
  have "?a \<in> set ?ts"
    using getTransforms_closed [OF assms(3), of "''answer''" "p # ps"] by simp
  then have "?a \<in> set (filter (\<lambda>t. name t = ''answer'') ?ts)"
    by simp
  from mapE_member_result [OF direct this]
  obtain z where "answerSlug ?a = Inr z" and "z \<in> set direct"
    by auto
  then have parent: "node_value p \<in> set direct"
    by (simp add: answerSlug_def at_def)
  from child parent show ?thesis
    by (simp add: slugs all set_newSet)
qed

theorem nested_identifier_has_parent_witness:
  "getDependenciesFromJexl example_jexl example_expression =
     Inr [JString ''foo'', JString ''bar'', JString ''bar.column''] \<and>
   \<lparr>name = ''mapby'',
     args = FunctionCall ''answer'' (Literal (JString ''bar'') # []) #
            Literal (JString ''column'') # []\<rparr> \<in> set (getTransforms example_ast) \<and>
   JString ''bar.column'' \<in> set [JString ''foo'', JString ''bar'', JString ''bar.column''] \<and>
   JString ''bar'' \<in> set [JString ''foo'', JString ''bar'', JString ''bar.column'']"
proof -
  have slugs: "getDependenciesFromJexl example_jexl example_expression =
     Inr [JString ''foo'', JString ''bar'', JString ''bar.column'']"
    by (simp add: extraction_defs example_parse example_ast_def)
  have mem: "\<lparr>name = ''mapby'',
     args = FunctionCall ''answer'' (Literal (JString ''bar'') # []) #
            Literal (JString ''column'') # []\<rparr> \<in> set (getTransforms example_ast)"
    by (simp add: example_ast_def)
  from nested_identifier_has_parent [OF slugs example_parse mem] slugs mem show ?thesis
    by simp
qed

section \<open>Resolution\<close>

lemmas example_defs =
  example_owner_def example_document_def empty_table_document_def empty_document_def
  foo_field_def bar_field_def empty_bar_field_def example_row_def example_column_def
  all_fields_def

lemmas odd_defs = odd_document_def odd_table_def odd_row_def odd_field_def

lemmas resolution_defs =
  dependencies_def nestedDependencyParents_def flatMapE_def resolveSlug_def findField_def
  assert_def document_findField_def at_def

lemma direct_parse: "example_jexl direct_expression = Inr direct_ast"
  by (simp add: example_jexl_def direct_expression_def example_expression_def)

lemma dotted_parse: "example_jexl dotted_expression = Inr dotted_ast"
  by (simp add: example_jexl_def dotted_expression_def example_expression_def
      direct_expression_def twice_expression_def)

lemma example_slugs:
  "getDependenciesFromJexl example_jexl example_expression =
     Inr [JString ''foo'', JString ''bar'', JString ''bar.column'']"
  by (simp add: extraction_defs example_parse example_ast_def)

lemma direct_slugs: "getDependenciesFromJexl example_jexl direct_expression = Inr [JString ''foo'']"
  by (simp add: extraction_defs direct_parse direct_ast_def)

lemma dotted_slugs:
  "getDependenciesFromJexl example_jexl dotted_expression = Inr [JString ''bar.column'']"
  by (simp add: extraction_defs dotted_parse dotted_ast_def)

lemma expressions_nonempty:
  "example_expression \<noteq> []" "direct_expression \<noteq> []" "dotted_expression \<noteq> []"
  by (simp_all add: example_expression_def direct_expression_def dotted_expression_def)

lemma example_all:
  "dependencies True ''jexl'' all_fields (example_owner example_document example_expression) =
     Inr [Some foo_field, Some bar_field, Some bar_field,
          Some (example_column ''1''), Some (example_column ''2''),
          Some (example_column ''3'')]"
  by (simp add: resolution_defs example_defs example_slugs expressions_nonempty)

lemma example_parents:
  "nestedDependencyParents True ''jexl'' (example_owner example_document example_expression) =
     Inr [Some bar_field]"
  by (simp add: resolution_defs example_defs example_slugs expressions_nonempty)

text \<open>
  C2, as the code has it. In a build that has the assertion compiled in, when all
  dependency fields are asked for (\<^verbatim>\<open>onlyNestedParents\<close> is false) and a direct
  identifier among the slugs extracted has a slug without a dot and no field in the
  document, resolving that identifier throws the assertion error whose message names the
  slug, the identity of the document and the text of the expression; the computation of
  the dependencies returns no sequence at all, and it ends with this very error when the
  identifiers before it resolve. In a build that strips the assertion the same identifier
  resolves to the one entry \<^verbatim>\<open>undefined\<close>, which the final filter removes.
\<close>

theorem missing_direct_field_fails:
  assumes "CHR ''.'' \<notin> set slug"
    and "document_findField (document this) slug = None"
    and "\<not> onlyNestedParents opts"
    and "get this path = Some e" and "e \<noteq> []"
    and "getDependenciesFromJexl (jexl (document this)) e = Inr slugs"
    and "JString slug \<in> set slugs"
  shows "resolveSlug True False (document this) e (JString slug) =
           Inl (AssertionFailed (notFound slug (uuid (document this)) e)) \<and>
         (\<exists>err. dependencies True path opts this = Inl err) \<and>
         (\<forall>pre post r. slugs = pre @ JString slug # post \<and>
              mapE (resolveSlug True False (document this) e) pre = Inr r \<longrightarrow>
            dependencies True path opts this =
              Inl (AssertionFailed (notFound slug (uuid (document this)) e))) \<and>
         resolveSlug False False (document this) e (JString slug) = Inr [None]"
proof -
  let ?err = "AssertionFailed (notFound slug (uuid (document this)) e)"
  note plain = parts_plain [OF assms(1)]
  have fails: "resolveSlug True False (document this) e (JString slug) = Inl ?err"
    using findField_missing [OF assms(2), of True e] plain
    by (simp add: resolveSlug_string)
  have dropped: "resolveSlug False False (document this) e (JString slug) = Inr [None]"
    using findField_missing [OF assms(2), of False e] plain
    by (simp add: resolveSlug_string)
  note unfold = dependencies_unfold [OF assms(4-6)]
  from mapE_member_fails
    [of "JString slug" slugs "resolveSlug True False (document this) e", OF assms(7) fails]
  have "\<exists>err. dependencies True path opts this = Inl err"
    using assms(3) by (auto simp: unfold)
  moreover have "dependencies True path opts this = Inl ?err"
    if "slugs = pre @ JString slug # post"
      and "mapE (resolveSlug True False (document this) e) pre = Inr r" for pre post r
    using mapE_first_failure [OF that(2) fails, of post] assms(3) that(1)
    by (simp add: unfold)
  ultimately show ?thesis
    using fails dropped by blast
qed

theorem missing_direct_field_fails_witness:
  "CHR ''.'' \<notin> set ''foo'' \<and>
   document_findField (document (example_owner empty_document direct_expression)) ''foo'' = None \<and>
   \<not> onlyNestedParents all_fields \<and>
   get (example_owner empty_document direct_expression) ''jexl'' = Some direct_expression \<and>
   direct_expression \<noteq> [] \<and>
   getDependenciesFromJexl (jexl (document (example_owner empty_document direct_expression)))
     direct_expression = Inr [JString ''foo''] \<and>
   resolveSlug True False empty_document direct_expression (JString ''foo'') =
     Inl (AssertionFailed (notFound ''foo'' ''doc'' direct_expression)) \<and>
   dependencies True ''jexl'' all_fields (example_owner empty_document direct_expression) =
     Inl (AssertionFailed (notFound ''foo'' ''doc'' direct_expression)) \<and>
   resolveSlug False False empty_document direct_expression (JString ''foo'') = Inr [None]"
proof -
  let ?own = "example_owner empty_document direct_expression"
  have h1: "CHR ''.'' \<notin> set ''foo''" by simp
  have h2: "document_findField (document ?own) ''foo'' = None"
    by (simp add: example_defs document_findField_def)
  have h3: "\<not> onlyNestedParents all_fields" by (simp add: all_fields_def)
  have h4: "get ?own ''jexl'' = Some direct_expression" by (simp add: example_owner_def)
  have h5: "direct_expression \<noteq> []" by (rule expressions_nonempty)
  have h6: "getDependenciesFromJexl (jexl (document ?own)) direct_expression =
      Inr [JString ''foo'']"
    by (simp add: example_defs direct_slugs)
  have h7: "JString ''foo'' \<in> set [JString ''foo'']" by simp
  have d: "document ?own = empty_document" and u: "uuid empty_document = ''doc''"
    by (simp_all add: example_defs)
  from missing_direct_field_fails [OF h1 h2 h3 h4 h5 h6 h7]
  have "resolveSlug True False empty_document direct_expression (JString ''foo'') =
      Inl (AssertionFailed (notFound ''foo'' ''doc'' direct_expression))"
    and "\<forall>pre post r. [JString ''foo''] = pre @ JString ''foo'' # post \<and>
          mapE (resolveSlug True False empty_document direct_expression) pre = Inr r \<longrightarrow>
        dependencies True ''jexl'' all_fields ?own =
          Inl (AssertionFailed (notFound ''foo'' ''doc'' direct_expression))"
    and "resolveSlug False False empty_document direct_expression (JString ''foo'') = Inr [None]"
    unfolding d u by blast+
  moreover from this(2) have "dependencies True ''jexl'' all_fields ?own =
      Inl (AssertionFailed (notFound ''foo'' ''doc'' direct_expression))"
    by (auto dest!: spec [of _ "[]"])
  ultimately show ?thesis
    using h1 h2 h3 h4 h5 h6 by blast
qed

text \<open>
  C2 as stated fails, in three ways. Where only the nested parents are asked for, a
  direct identifier is skipped before any lookup: the missing field \<^verbatim>\<open>foo\<close> of the
  expression \<^verbatim>\<open>'foo'|answer\<close> gives the empty sequence and no error. In a build that
  strips the assertion, the same expression gives the empty sequence and no error also
  when all fields are asked for. And a direct identifier whose slug has a dot is resolved
  as a nested one: \<^verbatim>\<open>'bar.column'|answer\<close> on the example document, which has no
  field of the slug \<^verbatim>\<open>bar.column\<close>, returns the table and its columns and no error.
\<close>

theorem missing_direct_field_skipped:
  "getDependenciesFromJexl (jexl empty_document) direct_expression = Inr [JString ''foo''] \<and>
   document_findField empty_document ''foo'' = None \<and>
   nestedDependencyParents True ''jexl'' (example_owner empty_document direct_expression) =
     Inr [] \<and>
   dependencies False ''jexl'' all_fields (example_owner empty_document direct_expression) =
     Inr [] \<and>
   getDependenciesFromJexl (jexl example_document) dotted_expression =
     Inr [JString ''bar.column''] \<and>
   document_findField example_document ''bar.column'' = None \<and>
   dependencies True ''jexl'' all_fields (example_owner example_document dotted_expression) =
     Inr [Some bar_field, Some (example_column ''1''), Some (example_column ''2''),
          Some (example_column ''3'')]"
  by (simp add: resolution_defs example_defs direct_slugs dotted_slugs expressions_nonempty)

text \<open>
  C3, as the code has it. For a nested identifier \<^verbatim>\<open>parent.child\<close> whose parent slug
  has no dot and whose child slug has no dot and is not empty, resolved with
  \<^verbatim>\<open>onlyNestedParents\<close> false in either build, where the parent has a field in the
  document: when the value of the parent is a sequence of rows that each have the child
  field, the callback returns the parent field followed by the child field of every row,
  in the order of the rows; when the value is the empty sequence or is falsy (absent), it
  returns the parent field alone; and when every slug extracted from the expression
  resolves, \<^verbatim>\<open>dependencies\<close> returns a sequence that has the parent field directly
  followed by these child fields.
\<close>

theorem nested_resolution_all_mode:
  assumes "CHR ''.'' \<notin> set parent" and "CHR ''.'' \<notin> set child" and "child \<noteq> []"
    and "document_findField d parent = Some field"
  shows "(field_value field = Table rows \<and>
          list_all2 (\<lambda>row f. document_findField row child = Some f) rows children \<longrightarrow>
            resolveSlug DEBUG False d e (JString (parent @ ''.'' @ child)) =
              Inr (Some field # map Some children)) \<and>
         (field_value field = Table [] \<or> \<not> truthyValue (field_value field) \<longrightarrow>
            resolveSlug DEBUG False d e (JString (parent @ ''.'' @ child)) = Inr [Some field]) \<and>
         (\<forall>this path opts slugs.
            document this = d \<and> get this path = Some e \<and> e \<noteq> [] \<and>
            \<not> onlyNestedParents opts \<and>
            getDependenciesFromJexl (jexl d) e = Inr slugs \<and>
            JString (parent @ ''.'' @ child) \<in> set slugs \<and>
            (\<forall>slug \<in> set slugs. \<exists>r. resolveSlug DEBUG False d e slug = Inr r) \<and>
            field_value field = Table rows \<and>
            list_all2 (\<lambda>row f. document_findField row child = Some f) rows children \<longrightarrow>
              (\<exists>pre post. dependencies DEBUG path opts this =
                 Inr (pre @ Some field # map Some children @ post)))"
proof -
  note parts = render_parts [OF assms(1,2)]
  have nested: "isNested (parent @ ''.'' @ child)"
    using assms(3) by (simp add: isNested_def parts)
  have found: "findField DEBUG d parent e = Inr (Some field)"
    using assms(4) by (rule findField_found)
  have rows: "resolveSlug DEBUG False d e (JString (parent @ ''.'' @ child)) =
      Inr (Some field # map Some children)"
    if "field_value field = Table rows"
      and "list_all2 (\<lambda>row f. document_findField row child = Some f) rows children"
  proof -
    from that(2) have "mapE (\<lambda>row. findField DEBUG row child e) rows = Inr (map Some children)"
      by (rule findField_rows)
    with that(1) show ?thesis
      using nested found by (simp add: resolveSlug_string parts)
  qed
  have none: "resolveSlug DEBUG False d e (JString (parent @ ''.'' @ child)) = Inr [Some field]"
    if "field_value field = Table [] \<or> \<not> truthyValue (field_value field)"
    using that nested found by (auto simp: resolveSlug_string parts)
  have whole: "\<exists>pre post. dependencies DEBUG path opts this =
      Inr (pre @ Some field # map Some children @ post)"
    if "document this = d" and "get this path = Some e" and "e \<noteq> []"
      and "\<not> onlyNestedParents opts"
      and "getDependenciesFromJexl (jexl d) e = Inr slugs"
      and "JString (parent @ ''.'' @ child) \<in> set slugs"
      and "\<forall>slug \<in> set slugs. \<exists>r. resolveSlug DEBUG False d e slug = Inr r"
      and "field_value field = Table rows"
      and "list_all2 (\<lambda>row f. document_findField row child = Some f) rows children"
    for this :: owner and path opts slugs
  proof -
    from mapE_all_succeed [OF that(7)] obtain per
      where per: "mapE (resolveSlug DEBUG False d e) slugs = Inr per" ..
    from that(1,5) have slugs: "getDependenciesFromJexl (jexl (document this)) e = Inr slugs"
      by simp
    have run: "dependencies DEBUG path opts this = Inr (filter Boolean (concat per))"
      using per that(1,4) by (simp add: dependencies_unfold [OF that(2,3) slugs])
    from segment_of_concat [OF per that(6) rows [OF that(8,9)], of Boolean]
    obtain pre post where "filter Boolean (concat per) =
        pre @ Some field # map Some children @ post"
      by (auto simp: Boolean_Some)
    with run show ?thesis by auto
  qed
  from rows none whole show ?thesis by blast
qed

theorem nested_resolution_all_mode_witness:
  "CHR ''.'' \<notin> set ''bar'' \<and> CHR ''.'' \<notin> set ''column'' \<and> ''column'' \<noteq> [] \<and>
   document_findField example_document ''bar'' = Some bar_field \<and>
   field_value bar_field = Table [example_row ''1'', example_row ''2'', example_row ''3''] \<and>
   list_all2 (\<lambda>row f. document_findField row ''column'' = Some f)
     [example_row ''1'', example_row ''2'', example_row ''3'']
     [example_column ''1'', example_column ''2'', example_column ''3''] \<and>
   resolveSlug True False example_document example_expression (JString ''bar.column'') =
     Inr [Some bar_field, Some (example_column ''1''), Some (example_column ''2''),
          Some (example_column ''3'')] \<and>
   document_findField empty_table_document ''bar'' = Some empty_bar_field \<and>
   field_value empty_bar_field = Table [] \<and>
   resolveSlug True False empty_table_document example_expression (JString ''bar.column'') =
     Inr [Some empty_bar_field] \<and>
   getDependenciesFromJexl (jexl example_document) example_expression =
     Inr [JString ''foo'', JString ''bar'', JString ''bar.column''] \<and>
   (\<exists>pre post.
      dependencies True ''jexl'' all_fields (example_owner example_document example_expression) =
        Inr (pre @ Some bar_field #
             map Some [example_column ''1'', example_column ''2'', example_column ''3''] @ post))"
proof -
  let ?rows = "[example_row ''1'', example_row ''2'', example_row ''3'']"
  let ?columns = "[example_column ''1'', example_column ''2'', example_column ''3'']"
  let ?own = "example_owner example_document example_expression"
  have h1: "CHR ''.'' \<notin> set ''bar''" and h2: "CHR ''.'' \<notin> set ''column''"
    and h3: "''column'' \<noteq> []"
    by simp_all
  have h4: "document_findField example_document ''bar'' = Some bar_field"
    by (simp add: document_findField_def example_document_def)
  have rows: "field_value bar_field = Table ?rows"
    by (simp add: bar_field_def)
  have children: "list_all2 (\<lambda>row f. document_findField row ''column'' = Some f) ?rows ?columns"
    by (simp add: document_findField_def example_row_def)
  have h4': "document_findField empty_table_document ''bar'' = Some empty_bar_field"
    by (simp add: document_findField_def empty_table_document_def)
  have empty: "field_value empty_bar_field = Table []"
    by (simp add: empty_bar_field_def)
  have slugs: "getDependenciesFromJexl (jexl example_document) example_expression =
      Inr [JString ''foo'', JString ''bar'', JString ''bar.column'']"
    by (simp add: example_document_def example_slugs)
  have resolve: "\<forall>slug \<in> set [JString ''foo'', JString ''bar'', JString ''bar.column''].
      \<exists>r. resolveSlug True False example_document example_expression slug = Inr r"
    by (simp add: resolution_defs example_defs)
  have own: "document ?own = example_document \<and> get ?own ''jexl'' = Some example_expression \<and>
      example_expression \<noteq> [] \<and> \<not> onlyNestedParents all_fields"
    by (simp add: example_owner_def all_fields_def expressions_nonempty)
  note inst = nested_resolution_all_mode [OF h1 h2 h3 h4, of ?rows ?columns True example_expression]
  from inst rows children
  have full: "resolveSlug True False example_document example_expression (JString ''bar.column'') =
     Inr [Some bar_field, Some (example_column ''1''), Some (example_column ''2''),
          Some (example_column ''3'')]"
    by simp
  from inst own slugs resolve rows children
  have whole: "\<exists>pre post. dependencies True ''jexl'' all_fields ?own =
      Inr (pre @ Some bar_field # map Some ?columns @ post)"
    by (auto simp del: map_eq_conv list.map)
  from nested_resolution_all_mode [OF h1 h2 h3 h4', of "[]" "[]" True example_expression] empty
  have "resolveSlug True False empty_table_document example_expression (JString ''bar.column'') =
     Inr [Some empty_bar_field]"
    by simp
  with full whole h1 h2 h3 h4 rows children h4' empty slugs show ?thesis by blast
qed

text \<open>
  C3 as stated fails for a nested identifier whose child slug is empty or has a dot, or
  whose parent slug has a dot. In the document below the table \<^verbatim>\<open>bar\<close> has one row,
  and the row has a field of the empty slug and a field \<^verbatim>\<open>col.umn\<close>. The identifier
  of \<^verbatim>\<open>bar\<close> and the empty child resolves to the table alone, not followed by the
  row's field; the identifier of \<^verbatim>\<open>bar\<close> and the child \<^verbatim>\<open>col.umn\<close> resolves to
  the table and the row's field \<^verbatim>\<open>col\<close>; and the identifier of the table
  \<^verbatim>\<open>ba.r\<close> and the child \<^verbatim>\<open>column\<close>, which the row has, fails on the lookup of a
  field \<^verbatim>\<open>ba\<close>.
\<close>

theorem nested_resolution_odd_slugs:
  "document_findField odd_document ''bar'' = Some (odd_table ''bar'') \<and>
   field_value (odd_table ''bar'') = Table [odd_row] \<and>
   document_findField odd_row '''' = Some (odd_field '''') \<and>
   resolveSlug True False odd_document example_expression (JString (''bar'' @ ''.'' @ '''')) =
     Inr [Some (odd_table ''bar'')] \<and>
   document_findField odd_row ''col.umn'' = Some (odd_field ''col.umn'') \<and>
   resolveSlug True False odd_document example_expression
     (JString (''bar'' @ ''.'' @ ''col.umn'')) =
     Inr [Some (odd_table ''bar''), Some (odd_field ''col'')] \<and>
   odd_field ''col'' \<noteq> odd_field ''col.umn'' \<and>
   document_findField odd_document ''ba.r'' = Some (odd_table ''ba.r'') \<and>
   field_value (odd_table ''ba.r'') = Table [odd_row] \<and>
   document_findField odd_row ''column'' = Some (odd_field ''column'') \<and>
   resolveSlug True False odd_document example_expression
     (JString (''ba.r'' @ ''.'' @ ''column'')) =
     Inl (AssertionFailed (notFound ''ba'' ''doc'' example_expression))"
  by (simp add: resolution_defs odd_defs)

text \<open>
  C4, as the code has it. The sequence returned is the concatenation, in the order of
  the identifiers, of what each identifier resolves to, without the \<^verbatim>\<open>null\<close> and
  \<^verbatim>\<open>undefined\<close> entries; nothing removes a field that is reached again. So whenever
  all fields are asked for and the slugs hold a nested identifier \<^verbatim>\<open>p.c\<close> next to its
  parent slug \<^verbatim>\<open>p\<close>, the parent field is in the sequence twice; in a build with the
  assertion, or when the parent field is there, the same holds for any \<^verbatim>\<open>c\<close>.
\<close>

theorem resolution_keeps_repeated_fields:
  assumes "dependencies DEBUG path opts this = Inr found"
    and "get this path = Some e" and "e \<noteq> []"
    and "getDependenciesFromJexl (jexl (document this)) e = Inr slugs"
  shows "(\<exists>per. list_all2 (\<lambda>slug r. resolveSlug DEBUG (onlyNestedParents opts) (document this)
                       e slug = Inr r) slugs per \<and>
                found = filter Boolean (concat per)) \<and>
         (\<forall>p c. \<not> onlyNestedParents opts \<and> JString p \<in> set slugs \<and>
                JString (p @ ''.'' @ c) \<in> set slugs \<and>
                (DEBUG \<or> isNested (p @ ''.'' @ c) \<or>
                 document_findField (document this) (parentSlug p) \<noteq> None) \<longrightarrow>
                \<not> distinct found)"
proof -
  let ?R = "\<lambda>slug r. resolveSlug DEBUG (onlyNestedParents opts) (document this) e slug = Inr r"
  from assms(1) obtain per
    where "mapE (resolveSlug DEBUG (onlyNestedParents opts) (document this) e) slugs = Inr per"
      and found: "found = filter Boolean (concat per)"
    unfolding dependencies_unfold [OF assms(2-4)] by (auto split: sum.splits)
  then have per: "list_all2 ?R slugs per"
    by (simp add: mapE_Inr_D)
  have "\<not> distinct found"
    if all: "\<not> onlyNestedParents opts" and p: "JString p \<in> set slugs"
      and n: "JString (p @ ''.'' @ c) \<in> set slugs"
      and known: "DEBUG \<or> isNested (p @ ''.'' @ c) \<or>
        document_findField (document this) (parentSlug p) \<noteq> None" for p c
  proof -
    from list_all2_member [OF per n] obtain r where "?R (JString (p @ ''.'' @ c)) r"
      by auto
    with all known obtain f where f: "document_findField (document this) (parentSlug p) = Some f"
      using resolved_head [of DEBUG "document this" e "p @ ''.'' @ c" r]
      by (auto simp: parentSlug_nested)
    have "Some f \<in> set r" if "?R (JString p) r" for r
      using resolved_head [of DEBUG "document this" e p r] that all f by auto
    moreover have "Some f \<in> set r" if "?R (JString (p @ ''.'' @ c)) r" for r
      using resolved_head [of DEBUG "document this" e "p @ ''.'' @ c" r] that all f
      by (auto simp: parentSlug_nested)
    moreover have "JString p \<noteq> JString (p @ ''.'' @ c)"
      by simp
    ultimately show ?thesis
      unfolding found using two_hits [OF per p n, of "Some f" Boolean] by simp
  qed
  with per found show ?thesis by blast
qed

theorem resolution_keeps_repeated_fields_witness:
  "dependencies True ''jexl'' all_fields (example_owner example_document example_expression) =
     Inr [Some foo_field, Some bar_field, Some bar_field,
          Some (example_column ''1''), Some (example_column ''2''),
          Some (example_column ''3'')] \<and>
   get (example_owner example_document example_expression) ''jexl'' = Some example_expression \<and>
   example_expression \<noteq> [] \<and>
   getDependenciesFromJexl (jexl (document (example_owner example_document example_expression)))
     example_expression = Inr [JString ''foo'', JString ''bar'', JString ''bar.column''] \<and>
   \<not> distinct [Some foo_field, Some bar_field, Some bar_field,
          Some (example_column ''1''), Some (example_column ''2''),
          Some (example_column ''3'')]"
proof -
  let ?own = "example_owner example_document example_expression"
  have h2: "get ?own ''jexl'' = Some example_expression" by (simp add: example_owner_def)
  have h3: "example_expression \<noteq> []" by (rule expressions_nonempty)
  have h4: "getDependenciesFromJexl (jexl (document ?own)) example_expression =
      Inr [JString ''foo'', JString ''bar'', JString ''bar.column'']"
    by (simp add: example_defs example_slugs)
  have "\<not> onlyNestedParents all_fields \<and>
      JString ''bar'' \<in> set [JString ''foo'', JString ''bar'', JString ''bar.column''] \<and>
      JString (''bar'' @ ''.'' @ ''column'')
        \<in> set [JString ''foo'', JString ''bar'', JString ''bar.column'']"
    by (simp add: all_fields_def)
  with resolution_keeps_repeated_fields [OF example_all h2 h3 h4]
  have "\<not> distinct [Some foo_field, Some bar_field, Some bar_field,
          Some (example_column ''1''), Some (example_column ''2''),
          Some (example_column ''3'')]"
    by blast
  with example_all h2 h3 h4 show ?thesis by blast
qed

text \<open>
  C4 as stated fails: for the example expression and a document whose table
  \<^verbatim>\<open>bar\<close> has no rows, the field \<^verbatim>\<open>bar\<close> is returned twice, once for the slug
  \<^verbatim>\<open>bar\<close> and once for the slug \<^verbatim>\<open>bar.column\<close>.
\<close>

theorem empty_table_parent_twice:
  "dependencies True ''jexl'' all_fields
     (example_owner empty_table_document example_expression) =
     Inr [Some foo_field, Some empty_bar_field, Some empty_bar_field] \<and>
   \<not> distinct [Some foo_field, Some empty_bar_field, Some empty_bar_field]"
  by (simp add: resolution_defs example_defs example_slugs expressions_nonempty)



text \<open>
  C8. An absent or empty expression gives the empty sequence and no error, for every
  owner and in either build: whatever its document and its parser context are, neither
  is consulted.
\<close>

theorem empty_expression_no_dependencies:
  "get this path = None \<or> get this path = Some [] \<Longrightarrow>
   dependencies DEBUG path opts this = Inr []"
  by (auto simp: dependencies_def)

theorem empty_expression_no_dependencies_witness:
  "get (example_owner empty_document []) ''jexl'' = Some [] \<and>
   get (example_owner empty_document []) ''other'' = None \<and>
   dependencies True ''jexl'' all_fields (example_owner empty_document []) = Inr [] \<and>
   dependencies False ''other'' all_fields (example_owner empty_document []) = Inr []"
  using empty_expression_no_dependencies
    [of "example_owner empty_document []" "''jexl''" True all_fields]
    empty_expression_no_dependencies
    [of "example_owner empty_document []" "''other''" False all_fields]
  by (simp add: example_owner_def)

text \<open>
  C10. A sequence returned by \<^verbatim>\<open>dependencies\<close> has no \<^verbatim>\<open>null\<close> and no
  \<^verbatim>\<open>undefined\<close> entry, in either build: those that the callback returns for the
  identifiers it skips, and for the fields that a build without the assertion does not
  find, are filtered out.
\<close>

theorem no_null_entries:
  "dependencies DEBUG path opts this = Inr found \<Longrightarrow> None \<notin> set found"
  by (auto simp: dependencies_def split: option.splits if_splits sum.splits)

theorem no_null_entries_witness:
  "dependencies True ''jexl'' \<lparr>onlyNestedParents = True, nestedParentsPath = None\<rparr>
     (example_owner example_document example_expression) = Inr [Some bar_field] \<and>
   resolveSlug True True example_document example_expression (JString ''foo'') = Inr [None] \<and>
   None \<notin> set [Some bar_field]"
proof -
  have run: "dependencies True ''jexl'' \<lparr>onlyNestedParents = True, nestedParentsPath = None\<rparr>
     (example_owner example_document example_expression) = Inr [Some bar_field]"
    using example_parents by (simp add: nestedDependencyParents_def)
  have "resolveSlug True True example_document example_expression (JString ''foo'') = Inr [None]"
    by (simp add: resolveSlug_def at_def)
  with no_null_entries [OF run] run show ?thesis by blast
qed

end
